theory Spec2Isabelle
  imports Main
begin

section \<open>pkghtml: an HTTP handler that renders package documentation\<close>

text \<open>
  A shallow embedding of the Go package \<^verbatim>\<open>pkghtml\<close>: the handler with its cache of
  rendered packages (\<^verbatim>\<open>handler.packages\<close>), the miss path \<^verbatim>\<open>prepare\<close>, the
  fetch-and-render operation \<^verbatim>\<open>fetch\<close>, the background refresher \<^verbatim>\<open>update\<close>, the
  request entry point \<^verbatim>\<open>ServeHTTP\<close>, the default error handler and the functional
  options. The first part models every function as the source writes it, as a function
  of the handler value; the second part is an interleaving model of the goroutines and
  of the mutex \<^verbatim>\<open>handler.mu\<close>.
\<close>

subsection \<open>Data\<close>

text \<open>\<^verbatim>\<open>[]byte\<close> is a list of bytes, \<^verbatim>\<open>time.Time\<close> an instant counted in nanoseconds.\<close>

type_synonym bytes = "char list"
type_synonym Time = nat

text \<open>
  Go's \<^verbatim>\<open>error\<close> values. The package declares one, \<^verbatim>\<open>ErrImport\<close>, and compares with
  it by identity (\<^verbatim>\<open>switch err { case ErrImport: ... }\<close>); every other error value
  is \<open>ErrOther\<close> with its message, and is different from \<^verbatim>\<open>ErrImport\<close> whatever its
  message says.
\<close>

datatype error = ErrImport | ErrOther string

text \<open>A call either returns or panics (a nil function value, a nil pointer).\<close>

datatype 'a exec = Panics | Returns 'a

text \<open>
  \<^verbatim>\<open>pkgdoc.Package\<close>, the documentation record of the inspector
  \<^verbatim>\<open>github.com/pnelson/pkgdoc\<close>. The handler itself reads the field \<^verbatim>\<open>Name\<close> only;
  the other two are the scalar fields the default template prints.
\<close>

record Package =
  Name :: string
  Synopsis :: string
  ImportPath :: string

text \<open>\<^verbatim>\<open>type pkg struct { buf []byte; modTime time.Time }\<close>\<close>

record pkg =
  buf :: bytes
  modTime :: Time

text \<open>
  The part of \<^verbatim>\<open>*http.Request\<close> the handler reads: \<^verbatim>\<open>req.URL.Path\<close> and
  \<^verbatim>\<open>req.URL.RawQuery\<close>; the method is carried along and never looked at.
\<close>

record request =
  Method :: string
  Path :: string
  RawQuery :: string

text \<open>
  What a handler does to its \<^verbatim>\<open>http.ResponseWriter\<close>, as the list of the calls it
  makes, in order. \<^verbatim>\<open>http.Error\<close> and \<^verbatim>\<open>http.ServeContent\<close> are the standard library's
  and are kept as calls.
\<close>

datatype w_call =
    Header_Set string string
  | WriteHeader nat
  | http_Error string nat
  | http_ServeContent string Time bytes

text \<open>
  What \<^verbatim>\<open>prepare\<close> and \<^verbatim>\<open>ServeHTTP\<close> do besides computing their results, in order:
  the read of the cache \<^verbatim>\<open>h.packages[name]\<close>, a call of \<^verbatim>\<open>h.fetch(name)\<close>, the
  statement \<^verbatim>\<open>go h.update(name)\<close>, a call of \<^verbatim>\<open>h.errorHandler(w, req, err)\<close>.
\<close>

datatype effect =
    MapLookup string
  | CallFetch string
  | GoUpdate string
  | CallErrorHandler error

text \<open>
  \<^verbatim>\<open>type handler struct\<close>. The mutex \<^verbatim>\<open>mu\<close> is part of the interleaving model below.
  \<^verbatim>\<open>render\<close> is a function value and may be nil (\<open>None\<close>) until \<^verbatim>\<open>New\<close> has run.
\<close>

record handler =
  name :: string
  render :: "(Package \<Rightarrow> error + bytes) option"
  template :: string
  stylesheet :: string
  errorHandler :: "request \<Rightarrow> error \<Rightarrow> w_call list"
  updateDuration :: int
  packages :: "string \<rightharpoonup> pkg"

text \<open>
  The world outside the package, as the handler sees it at one moment: the source
  inspector \<^verbatim>\<open>pkgdoc.New\<close> (a record and an error, either of which may be empty), the
  clock \<^verbatim>\<open>time.Now\<close>, the file system behind \<^verbatim>\<open>ioutil.ReadFile\<close>, and the template
  engine \<^verbatim>\<open>html/template\<close> (parse the text, execute it on the record and the
  stylesheet URL).
\<close>

record env =
  pkgdoc_New :: "string \<Rightarrow> Package \<times> error option"
  time_Now :: Time
  ioutil_ReadFile :: "string \<Rightarrow> error + bytes"
  template_Execute :: "string \<Rightarrow> Package \<Rightarrow> string \<Rightarrow> error + bytes"

subsection \<open>The standard library functions the handler calls\<close>

text \<open>\<^verbatim>\<open>strings.HasPrefix(s, "/")\<close>\<close>

fun HasPrefix_slash :: "string \<Rightarrow> bool" where
  "HasPrefix_slash [] = False"
| "HasPrefix_slash (c # cs) = (c = CHR ''/'')"

text \<open>
  \<^verbatim>\<open>path.Base\<close>: the last element of the path. Trailing slashes are removed first; the
  empty path gives \<^verbatim>\<open>"."\<close>, a path of slashes only gives \<^verbatim>\<open>"/"\<close>.
\<close>

definition strip_trailing_slashes :: "string \<Rightarrow> string" where
  "strip_trailing_slashes p = rev (dropWhile (\<lambda>c. c = CHR ''/'') (rev p))"

definition after_last_slash :: "string \<Rightarrow> string" where
  "after_last_slash p = rev (takeWhile (\<lambda>c. c \<noteq> CHR ''/'') (rev p))"

definition path_Base :: "string \<Rightarrow> string" where
  "path_Base p =
     (if p = [] then ''.''
      else let b = after_last_slash (strip_trailing_slashes p)
           in if b = [] then ''/'' else b)"

text \<open>
  \<^verbatim>\<open>path.Clean\<close>: the shortest path equivalent to the given one by lexical processing.
  Empty elements and \<^verbatim>\<open>"."\<close> are dropped, \<^verbatim>\<open>".."\<close> removes the element before it,
  \<^verbatim>\<open>".."\<close> at the start of a rooted path is dropped, and the empty result is \<^verbatim>\<open>"."\<close>.
\<close>

fun split_slash :: "string \<Rightarrow> string list" where
  "split_slash [] = [[]]"
| "split_slash (c # cs) =
     (if c = CHR ''/'' then [] # split_slash cs
      else (case split_slash cs of
              [] \<Rightarrow> [[c]]
            | s # ss \<Rightarrow> (c # s) # ss))"

fun join_slash :: "string list \<Rightarrow> string" where
  "join_slash [] = []"
| "join_slash [s] = s"
| "join_slash (s # t # ss) = s @ ''/'' @ join_slash (t # ss)"

fun clean_push :: "bool \<Rightarrow> string list \<Rightarrow> string \<Rightarrow> string list" where
  "clean_push rooted st seg =
     (if seg = ''..'' then
        (case st of
           [] \<Rightarrow> (if rooted then [] else [seg])
         | t # ts \<Rightarrow> (if t = ''..'' then seg # st else ts))
      else seg # st)"

definition path_Clean :: "string \<Rightarrow> string" where
  "path_Clean p =
     (let rooted = HasPrefix_slash p;
          segs = filter (\<lambda>s. s \<noteq> [] \<and> s \<noteq> ''.'') (split_slash p);
          out = (if rooted then ''/'' else []) @ join_slash (rev (foldl (clean_push rooted) [] segs))
      in if out = [] then ''.'' else out)"

text \<open>\<^verbatim>\<open>http.StatusText\<close> at the two codes the package uses.\<close>

definition StatusMovedPermanently :: nat where "StatusMovedPermanently = 301"
definition StatusNotFound :: nat where "StatusNotFound = 404"
definition StatusInternalServerError :: nat where "StatusInternalServerError = 500"

definition StatusText :: "nat \<Rightarrow> string" where
  "StatusText code =
     (if code = 404 then ''Not Found''
      else if code = 500 then ''Internal Server Error''
      else if code = 301 then ''Moved Permanently''
      else [])"

subsection \<open>fetch\<close>

text \<open>
  \<^verbatim>\<open>func (h *handler) fetch(name string) (*pkg, error)\<close>. The inspector's error is
  replaced by \<^verbatim>\<open>ErrImport\<close> when the record has no name; an error, whichever it is, is
  returned as it is; then the renderer runs, and its error is returned as it is.
\<close>

definition fetch :: "env \<Rightarrow> handler \<Rightarrow> string \<Rightarrow> (error + pkg) exec" where
  "fetch e h nm =
     (let (doc, err0) = pkgdoc_New e nm;
          err = (if Name doc = [] then Some ErrImport else err0)
      in case err of
           Some er \<Rightarrow> Returns (Inl er)
         | None \<Rightarrow>
             (case render h of
                None \<Rightarrow> Panics
              | Some r \<Rightarrow>
                  (case r doc of
                     Inl er \<Rightarrow> Returns (Inl er)
                   | Inr b \<Rightarrow> Returns (Inr \<lparr>buf = b, modTime = time_Now e\<rparr>))))"

subsection \<open>prepare\<close>

text \<open>
  \<^verbatim>\<open>func (h *handler) prepare(name string) (io.ReadSeeker, time.Time, error)\<close>, run
  from \<^verbatim>\<open>h.mu.Lock()\<close> to the deferred \<^verbatim>\<open>h.mu.Unlock()\<close> with no other goroutine in
  between (which the mutex ensures: see the interleaving model). The result is the
  error, or the bytes the reader reads and the modification time; with it come the
  handler after the call and the calls made.
\<close>

definition getReadSeeker :: "pkg \<Rightarrow> bytes" where
  "getReadSeeker p = buf p"

definition prepare ::
  "env \<Rightarrow> handler \<Rightarrow> string \<Rightarrow> ((error + bytes \<times> Time) \<times> handler \<times> effect list) exec" where
  "prepare e h nm =
     (case packages h nm of
        Some p \<Rightarrow> Returns (Inr (getReadSeeker p, modTime p), h, [MapLookup nm])
      | None \<Rightarrow>
          (case fetch e h nm of
             Panics \<Rightarrow> Panics
           | Returns (Inl er) \<Rightarrow> Returns (Inl er, h, [MapLookup nm, CallFetch nm])
           | Returns (Inr p) \<Rightarrow>
               Returns (Inr (getReadSeeker p, modTime p),
                        h\<lparr>packages := (packages h)(nm \<mapsto> p)\<rparr>,
                        [MapLookup nm, CallFetch nm, GoUpdate nm])))"

subsection \<open>update\<close>

text \<open>
  The critical section of \<^verbatim>\<open>update\<close>, between \<^verbatim>\<open>h.mu.Lock()\<close> and
  \<^verbatim>\<open>h.mu.Unlock()\<close>: \<^verbatim>\<open>h.packages[name].buf\<close> dereferences the entry, a nil pointer
  when the name is not in the map.
\<close>

definition compare_and_replace :: "handler \<Rightarrow> string \<Rightarrow> pkg \<Rightarrow> handler exec" where
  "compare_and_replace h nm p =
     (case packages h nm of
        None \<Rightarrow> Panics
      | Some cur \<Rightarrow>
          Returns (if buf cur \<noteq> buf p then h\<lparr>packages := (packages h)(nm \<mapsto> p)\<rparr> else h))"

text \<open>
  One turn of the loop of \<^verbatim>\<open>func (h *handler) update(name string)\<close>, after the timer
  has fired: fetch, go on to the next turn on an error, else compare and replace.
\<close>

definition update_cycle :: "env \<Rightarrow> handler \<Rightarrow> string \<Rightarrow> handler exec" where
  "update_cycle e h nm =
     (case fetch e h nm of
        Panics \<Rightarrow> Panics
      | Returns (Inl er) \<Rightarrow> Returns h
      | Returns (Inr p) \<Rightarrow> compare_and_replace h nm p)"

subsection \<open>ServeHTTP and the default error handler\<close>

definition defaultErrorHandler :: "request \<Rightarrow> error \<Rightarrow> w_call list" where
  "defaultErrorHandler req err =
     (let code = (case err of ErrImport \<Rightarrow> StatusNotFound | ErrOther m \<Rightarrow> StatusInternalServerError)
      in [http_Error (StatusText code) code])"

text \<open>
  The first lines of \<^verbatim>\<open>ServeHTTP\<close>: the path, with a slash put in front if it has
  none. \<^verbatim>\<open>url[len(url)-1]\<close> panics on an empty string (which \<open>request_url\<close> never
  gives).
\<close>

definition request_url :: "request \<Rightarrow> string" where
  "request_url req = (if \<not> HasPrefix_slash (Path req) then ''/'' @ Path req else Path req)"

definition redirect_location :: "request \<Rightarrow> string" where
  "redirect_location req =
     (let q = RawQuery req;
          loc = path_Base (request_url req) @ ''/''
      in if q \<noteq> [] then loc @ ''?'' @ q else loc)"

definition package_name :: "handler \<Rightarrow> string \<Rightarrow> string" where
  "package_name h url = (if url \<noteq> ''/'' then name h @ path_Clean url else name h)"

definition ServeHTTP ::
  "env \<Rightarrow> handler \<Rightarrow> request \<Rightarrow> (w_call list \<times> handler \<times> effect list) exec" where
  "ServeHTTP e h req =
     (let url = request_url req
      in if url = [] then Panics
         else if last url \<noteq> CHR ''/'' then
           Returns ([Header_Set ''Location'' (redirect_location req),
                     WriteHeader StatusMovedPermanently], h, [])
         else
           (let nm = package_name h url
            in case prepare e h nm of
                 Panics \<Rightarrow> Panics
               | Returns (Inl err, h', fx) \<Rightarrow>
                   Returns (errorHandler h req err, h', fx @ [CallErrorHandler err])
               | Returns (Inr (b, t), h', fx) \<Rightarrow>
                   Returns ([http_ServeContent nm t b], h', fx)))"

subsection \<open>Options and New\<close>

text \<open>\<^verbatim>\<open>type Option func(*handler)\<close>: an option changes the handler it is given.\<close>

type_synonym Option = "handler \<Rightarrow> handler"

definition Render :: "(Package \<Rightarrow> error + bytes) option \<Rightarrow> Option" where
  "Render fn = (\<lambda>h. h\<lparr>render := fn\<rparr>)"

text \<open>
  \<^verbatim>\<open>Template(filename)\<close> reads the file when the option is applied, and sets the
  template only if the read gave no error.
\<close>

definition Template :: "env \<Rightarrow> string \<Rightarrow> Option" where
  "Template e filename =
     (\<lambda>h. case ioutil_ReadFile e filename of
             Inr b \<Rightarrow> h\<lparr>template := b\<rparr>
           | Inl err \<Rightarrow> h)"

definition StylesheetURL :: "string \<Rightarrow> Option" where
  "StylesheetURL href = (\<lambda>h. h\<lparr>stylesheet := href\<rparr>)"

definition ErrorHandler :: "(request \<Rightarrow> error \<Rightarrow> w_call list) \<Rightarrow> Option" where
  "ErrorHandler fn = (\<lambda>h. h\<lparr>errorHandler := fn\<rparr>)"

definition UpdateDuration :: "int \<Rightarrow> Option" where
  "UpdateDuration d = (\<lambda>h. h\<lparr>updateDuration := d\<rparr>)"

definition defaultStylesheet :: string where
  "defaultStylesheet = []"

definition defaultTemplate :: string where
  \<open>defaultTemplate = ''<!DOCTYPE html>
<html>
<head>
<meta charset="utf-8">
<title>{{.Name}}</title>
<meta name="description" content="{{.Synopsis}}">
<meta name="viewport" content="width=device-width, initial-scale=1">
{{if .StylesheetURL}}<link rel="stylesheet" href="{{.StylesheetURL}}">{{end -}}
</head>
<body>
<h1>{{.Name}}</h1>
<p>{{.ImportPath}}</p>
{{.Doc.HTML}}

<h2 id="index">Index</h2>
<ul>
{{- if .Constants -}}
<li><a href="#constants">Constants</a></li>
{{- end -}}
{{- if .Variables -}}
<li><a href="#variables">Variables</a></li>
{{- end -}}
{{- range .Functions -}}
<li><a href="#{{.Name}}">{{.Decl}}</a></li>
{{- end -}}
{{- range $t := .Types -}}
<li><a href="#{{.Name}}">type {{.Name}}</a></li>
{{- if or .Functions .Methods -}}
<ul>
{{- end -}}
{{- range .Functions -}}
<li><a href="#{{.Name}}">{{.Decl}}</a></li>
{{- end -}}
{{- range .Methods -}}
<li><a href="#{{$t.Name}}.{{.Name}}">{{.Decl}}</a></li>
{{- end -}}
{{- if or .Functions .Methods -}}
</ul>
{{- end -}}
{{- end -}}
</ul>

{{- with .Constants -}}
<h2 id="constants">Constants</h2>
{{- range . -}}
<pre>{{.Decl}}</pre>
{{.Doc.HTML}}
{{- end -}}
{{- end -}}

{{- with .Variables -}}
<h2 id="variables">Variables</h2>
{{- range . -}}
<pre>{{.Decl}}</pre>
{{.Doc.HTML}}
{{- end -}}
{{- end -}}

{{- range .Functions -}}
<h2 id="{{.Name}}">{{.Decl}}</h2>
{{.Doc.HTML}}
{{- end -}}

{{- range $t := .Types -}}
<h2 id="{{.Name}}">type {{.Name}}</h2>
<pre>{{.Decl}}</pre>
{{.Doc.HTML}}
{{- range .Constants -}}
<pre>{{.Decl}}</pre>
{{.Doc.HTML}}
{{- end -}}
{{- range .Variables -}}
<pre>{{.Decl}}</pre>
{{.Doc.HTML}}
{{- end -}}
{{- range .Functions -}}
<h3 id="{{.Name}}">{{.Decl}}</h3>
{{.Doc.HTML}}
{{- end -}}
{{- range .Methods -}}
<h3 id="{{$t.Name}}.{{.Name}}">{{.Decl}}</h3>
{{.Doc.HTML}}
{{- end -}}
{{- end -}}

{{- with .SubPackages -}}
<h2 id="subpackages">Subpackages</h2>
<ul>
{{- range . -}}
<li><a href="{{.}}/">{{.}}</a></li>
{{- end -}}
</ul>
{{- end -}}
</body>
</html>''\<close>

text \<open>
  \<^verbatim>\<open>defaultRenderer\<close> parses \<^verbatim>\<open>h.template\<close> and executes it on the record and
  \<^verbatim>\<open>h.stylesheet\<close>; a parse error or an execution error is returned.
\<close>

definition defaultRenderer :: "env \<Rightarrow> handler \<Rightarrow> Package \<Rightarrow> error + bytes" where
  "defaultRenderer e h doc = template_Execute e (template h) doc (stylesheet h)"

definition time_Hour :: int where
  "time_Hour = 3600 * 1000000000"

definition New :: "env \<Rightarrow> string \<Rightarrow> Option list \<Rightarrow> handler" where
  "New e nm opts =
     (let h0 = \<lparr>name = nm, render = None, template = defaultTemplate,
                 stylesheet = defaultStylesheet, errorHandler = defaultErrorHandler,
                 updateDuration = time_Hour, packages = Map.empty\<rparr>;
          h = foldl (\<lambda>h option. option h) h0 opts
      in if render h = None then h\<lparr>render := Some (defaultRenderer e h)\<rparr> else h)"


subsection \<open>A sequence of calls of prepare\<close>

text \<open>Calls of \<^verbatim>\<open>prepare\<close> one after the other, each in the world of its moment.\<close>

fun prepares :: "(env \<times> string) list \<Rightarrow> handler \<Rightarrow> handler exec" where
  "prepares [] h = Returns h"
| "prepares ((e, nm) # cs) h =
     (case prepare e h nm of
        Panics \<Rightarrow> Panics
      | Returns (r, h', fx) \<Rightarrow> prepares cs h')"

subsection \<open>URI references\<close>

text \<open>
  The \<^verbatim>\<open>Location\<close> of the redirect is a URI reference, which the client that receives
  it parses and resolves against the URI it requested, by RFC 3986. A URI has the five
  components of RFC 3986, 3; a component that is absent is \<open>None\<close>.
\<close>

record uri =
  scheme :: "string option"
  authority :: "string option"
  upath :: string
  query :: "string option"
  fragment :: "string option"

text \<open>
  Parsing a reference into its components, by the regular expression of RFC 3986,
  appendix B:
  \<^verbatim>\<open>^(([^:/?#]+):)?(//([^/?#]*))?([^?#]*)(\?([^#]*))?(#(.*))?\<close>
\<close>

definition not_in :: "string \<Rightarrow> char \<Rightarrow> bool" where
  "not_in cs c = (c \<notin> set cs)"

definition parse_reference :: "string \<Rightarrow> uri" where
  "parse_reference r =
     (let s = takeWhile (not_in '':/?#'') r;
          r1 = drop (length s) r;
          (sch, r2) = (if s \<noteq> [] \<and> take 1 r1 = '':'' then (Some s, drop 1 r1) else (None, r));
          (auth, r3) =
            (if take 2 r2 = ''//''
             then (Some (takeWhile (not_in ''/?#'') (drop 2 r2)),
                   dropWhile (not_in ''/?#'') (drop 2 r2))
             else (None, r2));
          p = takeWhile (not_in ''?#'') r3;
          r4 = dropWhile (not_in ''?#'') r3;
          (q, r5) =
            (if take 1 r4 = ''?''
             then (Some (takeWhile (not_in ''#'') (drop 1 r4)),
                   dropWhile (not_in ''#'') (drop 1 r4))
             else (None, r4));
          f = (if take 1 r5 = ''#'' then Some (drop 1 r5) else None)
      in \<lparr>scheme = sch, authority = auth, upath = p, query = q, fragment = f\<rparr>)"








section \<open>The goroutines and the mutex\<close>

text \<open>
  Every request runs \<^verbatim>\<open>prepare\<close> on a goroutine of its own, and every successful miss
  starts a goroutine running \<^verbatim>\<open>update\<close>. A goroutine is modelled by the statement it
  is about to execute, with the values of its local variables. The statements between
  \<^verbatim>\<open>h.mu.Lock()\<close> and \<^verbatim>\<open>h.mu.Unlock()\<close> are separate steps, so that other goroutines
  run between any two of them.
\<close>

datatype goroutine =
    Prepare_Lock string
  | Prepare_Lookup string
  | Prepare_Fetch string
  | Prepare_Go string pkg
  | Prepare_Store string pkg
  | Prepare_Return "error + pkg"
  | Prepare_Done "error + bytes \<times> Time"
  | Update_Sleep string
  | Update_Fetch string
  | Update_Lock string pkg
  | Update_Compare string pkg
  | Update_Unlock string
  | Panicked

text \<open>
  The state of the process: the handler, whether \<^verbatim>\<open>h.mu\<close> is locked, the goroutines
  (a goroutine's number is its position), and a log of the calls of \<^verbatim>\<open>fetch\<close> made by
  \<^verbatim>\<open>prepare\<close>, latest first: the goroutine, the name, and whether the call succeeded.
\<close>

record sys =
  hnd :: handler
  mu :: bool
  gs :: "goroutine list"
  miss_fetches :: "(nat \<times> string \<times> bool) list"

definition start :: "handler \<Rightarrow> sys" where
  "start h = \<lparr>hnd = h, mu = False, gs = [], miss_fetches = []\<rparr>"

text \<open>
  One step of goroutine \<open>i\<close> in the world \<open>e\<close>. \<^verbatim>\<open>Lock\<close> on a locked mutex does not
  proceed; a finished or panicked goroutine has no step. A panic inside \<^verbatim>\<open>prepare\<close>
  runs the deferred \<^verbatim>\<open>Unlock\<close>.
\<close>

definition step :: "env \<Rightarrow> nat \<Rightarrow> sys \<Rightarrow> sys" where
  "step e i s =
     (if i < length (gs s) then
        (case gs s ! i of
           Prepare_Lock nm \<Rightarrow>
             (if mu s then s else s\<lparr>mu := True, gs := (gs s)[i := Prepare_Lookup nm]\<rparr>)
         | Prepare_Lookup nm \<Rightarrow>
             (case packages (hnd s) nm of
                None \<Rightarrow> s\<lparr>gs := (gs s)[i := Prepare_Fetch nm]\<rparr>
              | Some p \<Rightarrow> s\<lparr>gs := (gs s)[i := Prepare_Return (Inr p)]\<rparr>)
         | Prepare_Fetch nm \<Rightarrow>
             (case fetch e (hnd s) nm of
                Panics \<Rightarrow>
                  s\<lparr>mu := False, gs := (gs s)[i := Panicked],
                    miss_fetches := (i, nm, False) # miss_fetches s\<rparr>
              | Returns (Inl er) \<Rightarrow>
                  s\<lparr>gs := (gs s)[i := Prepare_Return (Inl er)],
                    miss_fetches := (i, nm, False) # miss_fetches s\<rparr>
              | Returns (Inr p) \<Rightarrow>
                  s\<lparr>gs := (gs s)[i := Prepare_Go nm p],
                    miss_fetches := (i, nm, True) # miss_fetches s\<rparr>)
         | Prepare_Go nm p \<Rightarrow>
             s\<lparr>gs := (gs s)[i := Prepare_Store nm p] @ [Update_Sleep nm]\<rparr>
         | Prepare_Store nm p \<Rightarrow>
             s\<lparr>hnd := (hnd s)\<lparr>packages := (packages (hnd s))(nm \<mapsto> p)\<rparr>,
               gs := (gs s)[i := Prepare_Return (Inr p)]\<rparr>
         | Prepare_Return r \<Rightarrow>
             s\<lparr>mu := False,
               gs := (gs s)[i := Prepare_Done
                        (case r of Inl er \<Rightarrow> Inl er
                                 | Inr p \<Rightarrow> Inr (getReadSeeker p, modTime p))]\<rparr>
         | Prepare_Done r \<Rightarrow> s
         | Update_Sleep nm \<Rightarrow> s\<lparr>gs := (gs s)[i := Update_Fetch nm]\<rparr>
         | Update_Fetch nm \<Rightarrow>
             (case fetch e (hnd s) nm of
                Panics \<Rightarrow> s\<lparr>gs := (gs s)[i := Panicked]\<rparr>
              | Returns (Inl er) \<Rightarrow> s\<lparr>gs := (gs s)[i := Update_Sleep nm]\<rparr>
              | Returns (Inr p) \<Rightarrow> s\<lparr>gs := (gs s)[i := Update_Lock nm p]\<rparr>)
         | Update_Lock nm p \<Rightarrow>
             (if mu s then s else s\<lparr>mu := True, gs := (gs s)[i := Update_Compare nm p]\<rparr>)
         | Update_Compare nm p \<Rightarrow>
             (case compare_and_replace (hnd s) nm p of
                Panics \<Rightarrow> s\<lparr>gs := (gs s)[i := Panicked]\<rparr>
              | Returns h' \<Rightarrow> s\<lparr>hnd := h', gs := (gs s)[i := Update_Unlock nm]\<rparr>)
         | Update_Unlock nm \<Rightarrow> s\<lparr>mu := False, gs := (gs s)[i := Update_Sleep nm]\<rparr>
         | Panicked \<Rightarrow> s)
      else s)"

text \<open>
  What happens in the process: a request arrives and its goroutine is about to call
  \<^verbatim>\<open>prepare\<close>, or the scheduler lets a goroutine take one step (a sleeping
  \<^verbatim>\<open>update\<close> wakes when it is given a step).
\<close>

datatype event = Request string | Run nat env

fun exec_event :: "sys \<Rightarrow> event \<Rightarrow> sys" where
  "exec_event s (Request nm) = s\<lparr>gs := gs s @ [Prepare_Lock nm]\<rparr>"
| "exec_event s (Run i e) = step e i s"

definition run :: "sys \<Rightarrow> event list \<Rightarrow> sys" where
  "run s evs = foldl exec_event s evs"

text \<open>What the statement a goroutine is at says about it.\<close>

fun holds_mu :: "goroutine \<Rightarrow> bool" where
  "holds_mu (Prepare_Lookup nm) = True"
| "holds_mu (Prepare_Fetch nm) = True"
| "holds_mu (Prepare_Go nm p) = True"
| "holds_mu (Prepare_Store nm p) = True"
| "holds_mu (Prepare_Return r) = True"
| "holds_mu (Update_Compare nm p) = True"
| "holds_mu (Update_Unlock nm) = True"
| "holds_mu g = False"

fun refreshes :: "string \<Rightarrow> goroutine \<Rightarrow> bool" where
  "refreshes n (Update_Sleep nm) = (nm = n)"
| "refreshes n (Update_Fetch nm) = (nm = n)"
| "refreshes n (Update_Lock nm p) = (nm = n)"
| "refreshes n (Update_Compare nm p) = (nm = n)"
| "refreshes n (Update_Unlock nm) = (nm = n)"
| "refreshes n g = False"

fun missed :: "string \<Rightarrow> goroutine \<Rightarrow> bool" where
  "missed n (Prepare_Fetch nm) = (nm = n)"
| "missed n (Prepare_Go nm p) = (nm = n)"
| "missed n (Prepare_Store nm p) = (nm = n)"
| "missed n g = False"


fun storing :: "string \<Rightarrow> goroutine \<Rightarrow> bool" where
  "storing n (Prepare_Store nm p) = (nm = n)"
| "storing n g = False"


fun is_panicked :: "goroutine \<Rightarrow> bool" where
  "is_panicked Panicked = True"
| "is_panicked g = False"

text \<open>How many elements of a list satisfy a predicate.\<close>

definition count_where :: "('a \<Rightarrow> bool) \<Rightarrow> 'a list \<Rightarrow> nat" where
  "count_where P xs = length (filter P xs)"

text \<open>The number of goroutines running \<^verbatim>\<open>update(n)\<close>.\<close>

definition refreshers :: "sys \<Rightarrow> string \<Rightarrow> nat" where
  "refreshers s n = count_where (refreshes n) (gs s)"




text \<open>
  What holds in every state the process reaches: the handler has a renderer; the mutex
  is locked exactly when one goroutine is at a statement under it, and no two are; no
  goroutine has panicked; a goroutine past a miss for a name finds no entry for it; and
  a name has one \<^verbatim>\<open>update\<close> goroutine if it has an entry or a goroutine is about to
  store one, and none otherwise.
\<close>

definition inv :: "sys \<Rightarrow> bool" where
  "inv s =
     (render (hnd s) \<noteq> None \<and>
      count_where holds_mu (gs s) = (if mu s then 1 else 0) \<and>
      count_where is_panicked (gs s) = 0 \<and>
      (\<forall>n. (0 < count_where (missed n) (gs s) \<longrightarrow> packages (hnd s) n = None) \<and>
           refreshers s n =
             (if packages (hnd s) n \<noteq> None \<or> 0 < count_where (storing n) (gs s)
              then 1 else 0)))"


section \<open>Concrete worlds\<close>

text \<open>
  Inspectors: one that resolves every name, one that resolves none, one that finds the
  package and reports an error with it; and a second version of the resolved record.
\<close>

definition inspect_ok :: "string \<Rightarrow> Package \<times> error option" where
  "inspect_ok nm = (\<lparr>Name = nm, Synopsis = ''first'', ImportPath = nm\<rparr>, None)"

definition inspect_changed :: "string \<Rightarrow> Package \<times> error option" where
  "inspect_changed nm = (\<lparr>Name = nm, Synopsis = ''second'', ImportPath = nm\<rparr>, None)"

definition inspect_unresolved :: "string \<Rightarrow> Package \<times> error option" where
  "inspect_unresolved nm =
     (\<lparr>Name = [], Synopsis = [], ImportPath = []\<rparr>, Some (ErrOther ''cannot find package''))"

definition inspect_broken :: "string \<Rightarrow> Package \<times> error option" where
  "inspect_broken nm =
     (\<lparr>Name = nm, Synopsis = [], ImportPath = nm\<rparr>, Some (ErrOther ''syntax error''))"

text \<open>
  A world with the given inspector and clock, no readable file, and a template engine
  that prints the name and the synopsis.
\<close>

definition world :: "(string \<Rightarrow> Package \<times> error option) \<Rightarrow> Time \<Rightarrow> env" where
  "world insp t =
     \<lparr>pkgdoc_New = insp, time_Now = t,
      ioutil_ReadFile = (\<lambda>f. Inl (ErrOther ''no such file or directory'')),
      template_Execute = (\<lambda>text doc css. Inr (Name doc @ '': '' @ Synopsis doc))\<rparr>"

text \<open>A renderer that always fails.\<close>

definition render_fails :: "Package \<Rightarrow> error + bytes" where
  "render_fails doc = Inl (ErrOther ''template: unexpected EOF'')"

text \<open>The handler of the package \<^verbatim>\<open>net\<close>, new, and with one package in its cache.\<close>

definition h_new :: handler where
  "h_new = New (world inspect_ok 0) ''net'' []"

definition h_cached :: handler where
  "h_cached = h_new\<lparr>packages := [''net'' \<mapsto> \<lparr>buf = ''net: first'', modTime = 1\<rparr>]\<rparr>"

text \<open>
  A run with one request for \<^verbatim>\<open>net\<close>. Its goroutine (number 0) takes the mutex,
  misses, fetches and starts the \<^verbatim>\<open>update\<close> goroutine (number 1), which wakes at
  once, fetches the changed package and tries the mutex, in vain, before goroutine 0
  has stored its package; then goroutine 0 stores and returns, and goroutine 1 takes
  the mutex.
\<close>

definition evs_net :: "event list" where
  "evs_net =
     [Request ''net'',
      Run 0 (world inspect_ok 1), Run 0 (world inspect_ok 1), Run 0 (world inspect_ok 1),
      Run 0 (world inspect_ok 1),
      Run 1 (world inspect_changed 2), Run 1 (world inspect_changed 2),
      Run 1 (world inspect_changed 2),
      Run 0 (world inspect_changed 3), Run 0 (world inspect_changed 3),
      Run 1 (world inspect_changed 4)]"


section \<open>Properties\<close>

subsection \<open>Options\<close>

text \<open>
  C10. When the file cannot be read, the option \<^verbatim>\<open>Template(filename)\<close> returns the
  handler it was given: the template configured before (or the default one) stays.
  The option has no error result, and \<^verbatim>\<open>New\<close> with the option at the end of its list
  builds the handler it builds without it.
\<close>

theorem Template_unreadable:
  assumes "ioutil_ReadFile e filename = Inl err"
  shows "Template e filename h = h \<and>
         New e nm (opts @ [Template e filename]) = New e nm opts \<and>
         template (New e nm [Template e filename]) = defaultTemplate"
  using assms by (simp add: Template_def New_def Let_def)

theorem Template_unreadable_witness:
  "Template (world inspect_ok 0) ''doc.html'' (StylesheetURL ''/s.css'' h_new) =
     StylesheetURL ''/s.css'' h_new \<and>
   template (New (world inspect_ok 0) ''net'' [Template (world inspect_ok 0) ''doc.html'']) =
     defaultTemplate"
  using Template_unreadable [of "world inspect_ok 0" "''doc.html''" "ErrOther ''no such file or directory''"]
  by (simp add: world_def)

subsection \<open>fetch on a handler with a renderer\<close>

lemma fetch_not_Panics: "render h \<noteq> None \<Longrightarrow> fetch e h nm \<noteq> Panics"
  by (auto simp: fetch_def Let_def split: prod.splits option.splits sum.splits)

subsection \<open>prepare\<close>

text \<open>
  C7. When the name is in the cache, \<^verbatim>\<open>prepare\<close> returns the bytes and the
  modification time of the cached entry; it reads the map, calls neither \<^verbatim>\<open>fetch\<close>
  nor anything else, and leaves the handler as it was.
\<close>

theorem prepare_hit:
  assumes "packages h nm = Some p"
  shows "prepare e h nm = Returns (Inr (buf p, modTime p), h, [MapLookup nm])"
  using assms by (simp add: prepare_def getReadSeeker_def)

theorem prepare_hit_witness:
  "prepare (world inspect_changed 5) h_cached ''net'' = Returns (Inr (''net: first'', 1), h_cached, [MapLookup ''net''])"
  using prepare_hit [of h_cached "''net''" "\<lparr>buf = ''net: first'', modTime = 1\<rparr>" "world inspect_changed 5"]
  by (simp add: h_cached_def)

text \<open>
  C6. When the name is not in the cache and \<^verbatim>\<open>fetch\<close> fails, \<^verbatim>\<open>prepare\<close> returns
  the error of \<^verbatim>\<open>fetch\<close>, leaves the handler as it was (no entry) and starts no
  \<^verbatim>\<open>update\<close> goroutine. A later call for the same name, on that unchanged handler,
  calls \<^verbatim>\<open>fetch\<close> again: it stores the package if the call succeeds and fails again
  if it fails.
\<close>

theorem prepare_miss_error:
  assumes "packages h nm = None" and "fetch e h nm = Returns (Inl err)"
  shows "prepare e h nm = Returns (Inl err, h, [MapLookup nm, CallFetch nm]) \<and>
         (\<forall>e' p. fetch e' h nm = Returns (Inr p) \<longrightarrow>
            prepare e' h nm =
              Returns (Inr (buf p, modTime p), h\<lparr>packages := (packages h)(nm \<mapsto> p)\<rparr>,
                       [MapLookup nm, CallFetch nm, GoUpdate nm])) \<and>
         (\<forall>e' err'. fetch e' h nm = Returns (Inl err') \<longrightarrow>
            prepare e' h nm = Returns (Inl err', h, [MapLookup nm, CallFetch nm]))"
  using assms by (simp add: prepare_def getReadSeeker_def)

lemma fetch_h_new_unresolved:
  "fetch (world inspect_unresolved t) h_new ''alpha'' = Returns (Inl ErrImport)"
  by (simp add: fetch_def world_def inspect_unresolved_def)

lemma fetch_h_new_ok:
  "fetch (world inspect_ok t) h_new nm = (if nm = [] then Returns (Inl ErrImport) else Returns (Inr \<lparr>buf = nm @ '': first'', modTime = t\<rparr>))"
  by (simp add: fetch_def world_def inspect_ok_def h_new_def New_def Let_def defaultRenderer_def defaultStylesheet_def)

theorem prepare_miss_error_witness:
  "prepare (world inspect_unresolved 3) h_new ''alpha'' = Returns (Inl ErrImport, h_new, [MapLookup ''alpha'', CallFetch ''alpha'']) \<and>
   prepare (world inspect_ok 4) h_new ''alpha'' =
     Returns (Inr (''alpha: first'', 4),
              h_new\<lparr>packages := (packages h_new)(''alpha'' \<mapsto> \<lparr>buf = ''alpha: first'', modTime = 4\<rparr>)\<rparr>,
              [MapLookup ''alpha'', CallFetch ''alpha'', GoUpdate ''alpha''])"
proof -
  have miss: "packages h_new ''alpha'' = None"
    by (simp add: h_new_def New_def Let_def)
  have later: "fetch (world inspect_ok 4) h_new ''alpha'' = Returns (Inr \<lparr>buf = ''alpha: first'', modTime = 4\<rparr>)"
    by (simp add: fetch_h_new_ok)
  from prepare_miss_error [OF miss fetch_h_new_unresolved [of 3]] later
  show ?thesis by simp
qed

subsection \<open>update\<close>

text \<open>
  C4. When a turn of \<^verbatim>\<open>update\<close> fetches a package whose bytes equal those of the
  cached entry, the turn leaves the handler as it was: the entry keeps its bytes and
  its modification time.
\<close>

theorem update_cycle_identical:
  assumes "packages h nm = Some cur" and "fetch e h nm = Returns (Inr p)" and "buf p = buf cur"
  shows "update_cycle e h nm = Returns h"
  using assms by (simp add: update_cycle_def compare_and_replace_def)

lemma fetch_h_cached_ok:
  "fetch (world inspect_ok t) h_cached ''net'' = Returns (Inr \<lparr>buf = ''net: first'', modTime = t\<rparr>)"
  by (simp add: fetch_def world_def inspect_ok_def h_cached_def h_new_def New_def Let_def defaultRenderer_def defaultStylesheet_def)

theorem update_cycle_identical_witness:
  "update_cycle (world inspect_ok 9) h_cached ''net'' = Returns h_cached \<and>
   packages h_cached ''net'' = Some \<lparr>buf = ''net: first'', modTime = 1\<rparr>"
proof -
  have cur: "packages h_cached ''net'' = Some \<lparr>buf = ''net: first'', modTime = 1\<rparr>"
    by (simp add: h_cached_def)
  from update_cycle_identical [OF cur fetch_h_cached_ok [of 9]] cur
  show ?thesis by simp
qed

subsection \<open>Calls of prepare keep what is cached\<close>

lemma fetch_ok_render: "fetch e h nm = Returns (Inr p) \<Longrightarrow> render h \<noteq> None \<and> modTime p = time_Now e"
  by (auto simp: fetch_def Let_def split: prod.splits option.splits sum.splits if_splits)

lemma prepare_keeps:
  assumes "prepare e h nm = Returns (r, h', fx)"
  shows "render h' = render h \<and> (\<forall>n p. packages h n = Some p \<longrightarrow> packages h' n = Some p)"
  using assms
  by (auto simp: prepare_def split: option.splits exec.splits sum.splits)

lemma prepare_returns:
  assumes "render h \<noteq> None"
  shows "\<exists>r h' fx. prepare e h nm = Returns (r, h', fx)"
  using fetch_not_Panics [OF assms, of e nm]
  by (auto simp: prepare_def split: option.splits exec.splits sum.splits)

lemma prepares_keeps:
  "render h \<noteq> None \<Longrightarrow>
   \<exists>h'. prepares cs h = Returns h' \<and> render h' = render h \<and>
        (\<forall>n p. packages h n = Some p \<longrightarrow> packages h' n = Some p)"
proof (induction cs arbitrary: h)
  case Nil
  then show ?case by simp
next
  case (Cons c cs)
  obtain e nm where c: "c = (e, nm)" by (cases c)
  from prepare_returns [OF Cons.prems, of e nm]
  obtain r h1 fx where p: "prepare e h nm = Returns (r, h1, fx)" by blast
  from prepare_keeps [OF p]
  have k: "render h1 = render h" "\<forall>n p. packages h n = Some p \<longrightarrow> packages h1 n = Some p"
    by simp_all
  from Cons.prems k have "render h1 \<noteq> None" by simp
  from Cons.IH [OF this] obtain h' where
    h': "prepares cs h1 = Returns h'" "render h' = render h1"
        "\<forall>n p. packages h1 n = Some p \<longrightarrow> packages h' n = Some p"
    by blast
  from c p h' k show ?case by simp
qed

text \<open>
  C5. When a turn of \<^verbatim>\<open>update\<close> fetches a package whose bytes differ from those of
  the cached entry, the entry is replaced by the fetched package, bytes and modification
  time (the time of the fetch); and after any further calls of \<^verbatim>\<open>prepare\<close>, for
  any names, \<^verbatim>\<open>prepare\<close> for the name returns the new bytes and the new time, as a
  hit.
\<close>

theorem update_cycle_changed:
  assumes "packages h nm = Some cur" and "fetch e h nm = Returns (Inr p)" and "buf p \<noteq> buf cur"
  shows "update_cycle e h nm = Returns (h\<lparr>packages := (packages h)(nm \<mapsto> p)\<rparr>) \<and>
         modTime p = time_Now e \<and>
         (\<forall>cs. \<exists>h'. prepares cs (h\<lparr>packages := (packages h)(nm \<mapsto> p)\<rparr>) = Returns h' \<and>
             (\<forall>e'. prepare e' h' nm = Returns (Inr (buf p, modTime p), h', [MapLookup nm])))"
proof -
  let ?h1 = "h\<lparr>packages := (packages h)(nm \<mapsto> p)\<rparr>"
  have upd: "update_cycle e h nm = Returns ?h1"
    using assms by (simp add: update_cycle_def compare_and_replace_def)
  have r: "render ?h1 \<noteq> None" and t: "modTime p = time_Now e"
    using fetch_ok_render [OF assms(2)] by simp_all
  have later: "\<exists>h'. prepares cs ?h1 = Returns h' \<and>
             (\<forall>e'. prepare e' h' nm = Returns (Inr (buf p, modTime p), h', [MapLookup nm]))" for cs
  proof -
    from prepares_keeps [OF r, of cs] obtain h' where
      h': "prepares cs ?h1 = Returns h'" "\<forall>n q. packages ?h1 n = Some q \<longrightarrow> packages h' n = Some q"
      by blast
    from h'(2) have "packages h' nm = Some p" by simp
    then have "prepare e' h' nm = Returns (Inr (buf p, modTime p), h', [MapLookup nm])" for e'
      by (simp add: prepare_def getReadSeeker_def)
    with h'(1) show ?thesis by blast
  qed
  from upd t later show ?thesis by blast
qed

lemma fetch_h_cached_changed:
  "fetch (world inspect_changed t) h_cached ''net'' = Returns (Inr \<lparr>buf = ''net: second'', modTime = t\<rparr>)"
  by (simp add: fetch_def world_def inspect_changed_def h_cached_def h_new_def New_def Let_def defaultRenderer_def defaultStylesheet_def)

theorem update_cycle_changed_witness:
  "update_cycle (world inspect_changed 9) h_cached ''net'' =
     Returns (h_cached\<lparr>packages := (packages h_cached)(''net'' \<mapsto> \<lparr>buf = ''net: second'', modTime = 9\<rparr>)\<rparr>) \<and>
   (\<exists>h'. prepares [(world inspect_ok 10, ''net/http''), (world inspect_ok 11, ''net'')]
            (h_cached\<lparr>packages := (packages h_cached)(''net'' \<mapsto> \<lparr>buf = ''net: second'', modTime = 9\<rparr>)\<rparr>) = Returns h' \<and>
         prepare (world inspect_ok 12) h' ''net'' = Returns (Inr (''net: second'', 9), h', [MapLookup ''net'']))"
proof -
  have cur: "packages h_cached ''net'' = Some \<lparr>buf = ''net: first'', modTime = 1\<rparr>"
    by (simp add: h_cached_def)
  have ne: "buf \<lparr>buf = ''net: second'', modTime = 9\<rparr> \<noteq> buf \<lparr>buf = ''net: first'', modTime = 1\<rparr>"
    by simp
  let ?h1 = "h_cached\<lparr>packages := (packages h_cached)(''net'' \<mapsto> \<lparr>buf = ''net: second'', modTime = 9\<rparr>)\<rparr>"
  from update_cycle_changed [OF cur fetch_h_cached_changed [of 9] ne]
  have a: "update_cycle (world inspect_changed 9) h_cached ''net'' = Returns ?h1"
    and b: "\<forall>cs. \<exists>h'. prepares cs ?h1 = Returns h' \<and>
              (\<forall>e'. prepare e' h' ''net'' = Returns (Inr (''net: second'', 9), h', [MapLookup ''net'']))"
    by simp_all
  from b obtain h' where
    "prepares [(world inspect_ok 10, ''net/http''), (world inspect_ok 11, ''net'')] ?h1 = Returns h'"
    "\<forall>e'. prepare e' h' ''net'' = Returns (Inr (''net: second'', 9), h', [MapLookup ''net''])"
    by blast
  with a show ?thesis by blast
qed

subsection \<open>ServeHTTP\<close>

lemma prepare_effects:
  assumes "prepare e h nm = Returns (r, h', fx)"
  shows "CallErrorHandler err \<notin> set fx"
  using assms
  by (auto simp: prepare_def split: option.splits exec.splits sum.splits)

lemma request_url_nonempty: "request_url req \<noteq> []"
  by (cases "Path req") (simp_all add: request_url_def)

lemma h_new_fields:
  "packages h_new = Map.empty" "errorHandler h_new = defaultErrorHandler" "name h_new = ''net''"
  "render h_new \<noteq> None"
  by (simp_all add: h_new_def New_def Let_def)

lemma ServeHTTP_total:
  assumes "render h \<noteq> None"
  shows "\<exists>ws h' fx. ServeHTTP e h req = Returns (ws, h', fx)"
proof (cases "last (request_url req) = CHR ''/''")
  case False
  then show ?thesis by (simp add: ServeHTTP_def Let_def request_url_nonempty)
next
  case True
  from prepare_returns [OF assms, of e "package_name h (request_url req)"]
  obtain r hp fxp where p: "prepare e h (package_name h (request_url req)) = Returns (r, hp, fxp)"
    by blast
  show ?thesis
  proof (cases r)
    case (Inl er)
    with p True show ?thesis by (simp add: ServeHTTP_def Let_def request_url_nonempty)
  next
    case (Inr bt)
    with p True show ?thesis
      by (cases bt) (simp add: ServeHTTP_def Let_def request_url_nonempty)
  qed
qed

text \<open>
  C8. The default error handler answers \<^verbatim>\<open>ErrImport\<close> with 404 Not Found and every
  other error with 500 Internal Server Error. When \<^verbatim>\<open>prepare\<close> returns an error,
  \<^verbatim>\<open>ServeHTTP\<close> returns, having called the error handler with that error, once and
  last, and what it has written to the response is what the error handler writes. When
  \<^verbatim>\<open>prepare\<close> returns a package \<^verbatim>\<open>ServeHTTP\<close> serves it, and when the path lacks its
  final slash \<^verbatim>\<open>ServeHTTP\<close> redirects: in both cases it returns without calling the
  error handler. \<^verbatim>\<open>ServeHTTP\<close> returns whenever the handler has a renderer. So the
  error handler is called with an error exactly when \<^verbatim>\<open>prepare\<close> was called and
  returned that error.
\<close>

theorem errorHandler_on_failure:
  "defaultErrorHandler req ErrImport = [http_Error ''Not Found'' 404] \<and>
   defaultErrorHandler req (ErrOther m) = [http_Error ''Internal Server Error'' 500] \<and>
   (last (request_url req) = CHR ''/'' \<and>
    prepare e h (package_name h (request_url req)) = Returns (Inl err, hp, fxp) \<longrightarrow>
      ServeHTTP e h req = Returns (errorHandler h req err, hp, fxp @ [CallErrorHandler err]) \<and>
      CallErrorHandler err' \<notin> set fxp) \<and>
   (last (request_url req) = CHR ''/'' \<and>
    prepare e h (package_name h (request_url req)) = Returns (Inr (b, t), hp, fxp) \<longrightarrow>
      ServeHTTP e h req =
        Returns ([http_ServeContent (package_name h (request_url req)) t b], hp, fxp) \<and>
      CallErrorHandler err' \<notin> set fxp) \<and>
   (last (request_url req) \<noteq> CHR ''/'' \<longrightarrow>
      ServeHTTP e h req =
        Returns ([Header_Set ''Location'' (redirect_location req), WriteHeader 301], h, [])) \<and>
   (render h \<noteq> None \<longrightarrow> (\<exists>ws h' fx. ServeHTTP e h req = Returns (ws, h', fx))) \<and>
   (ServeHTTP e h req = Returns (ws, h', fx) \<longrightarrow>
      (CallErrorHandler err \<in> set fx) =
        (last (request_url req) = CHR ''/'' \<and>
         (\<exists>hq fxq. prepare e h (package_name h (request_url req)) = Returns (Inl err, hq, fxq))) \<and>
      (CallErrorHandler err \<in> set fx \<longrightarrow> ws = errorHandler h req err))"
proof -
  let ?nm = "package_name h (request_url req)"
  have d1: "defaultErrorHandler req ErrImport = [http_Error ''Not Found'' 404]"
    by (simp add: defaultErrorHandler_def StatusNotFound_def StatusText_def)
  have d2: "defaultErrorHandler req (ErrOther m) = [http_Error ''Internal Server Error'' 500]"
    by (simp add: defaultErrorHandler_def StatusInternalServerError_def StatusText_def)
  have failed: "ServeHTTP e h req = Returns (errorHandler h req err, hp, fxp @ [CallErrorHandler err]) \<and>
      CallErrorHandler err' \<notin> set fxp"
    if "last (request_url req) = CHR ''/''" and "prepare e h ?nm = Returns (Inl err, hp, fxp)"
    using that prepare_effects [OF that(2), of err']
    by (simp add: ServeHTTP_def Let_def request_url_nonempty)
  have served: "ServeHTTP e h req = Returns ([http_ServeContent ?nm t b], hp, fxp) \<and>
      CallErrorHandler err' \<notin> set fxp"
    if "last (request_url req) = CHR ''/''" and "prepare e h ?nm = Returns (Inr (b, t), hp, fxp)"
    using that prepare_effects [OF that(2), of err']
    by (simp add: ServeHTTP_def Let_def request_url_nonempty)
  have redirected: "ServeHTTP e h req =
        Returns ([Header_Set ''Location'' (redirect_location req), WriteHeader 301], h, [])"
    if "last (request_url req) \<noteq> CHR ''/''"
    using that by (simp add: ServeHTTP_def Let_def request_url_nonempty StatusMovedPermanently_def)
  have total: "\<exists>ws h' fx. ServeHTTP e h req = Returns (ws, h', fx)" if "render h \<noteq> None"
    using ServeHTTP_total [OF that] .
  have s: "(CallErrorHandler err \<in> set fx) =
        (last (request_url req) = CHR ''/'' \<and>
         (\<exists>hq fxq. prepare e h ?nm = Returns (Inl err, hq, fxq))) \<and>
      (CallErrorHandler err \<in> set fx \<longrightarrow> ws = errorHandler h req err)"
    if returned: "ServeHTTP e h req = Returns (ws, h', fx)"
  proof (cases "last (request_url req) = CHR ''/''")
    case False
    with returned show ?thesis
      by (auto simp: ServeHTTP_def Let_def request_url_nonempty)
  next
    case True
    show ?thesis
    proof (cases "prepare e h ?nm")
      case Panics
      with returned True show ?thesis
        by (simp add: ServeHTTP_def Let_def request_url_nonempty)
    next
      case (Returns res)
      obtain r hq fxq where res: "res = (r, hq, fxq)" by (cases res)
      from prepare_effects [of e h ?nm r hq fxq err] Returns res
      have no: "CallErrorHandler err \<notin> set fxq" by simp
      show ?thesis
      proof (cases r)
        case (Inl er)
        with returned True Returns res no show ?thesis
          by (auto simp: ServeHTTP_def Let_def request_url_nonempty)
      next
        case (Inr bt)
        obtain b' t' where "bt = (b', t')" by (cases bt)
        with Inr returned True Returns res no show ?thesis
          by (auto simp: ServeHTTP_def Let_def request_url_nonempty)
      qed
    qed
  qed
  from d1 d2 failed served redirected total s show ?thesis by blast
qed

lemma package_name_h_new:
  "package_name (h_new\<lparr>render := r\<rparr>) ''/alpha/'' = ''net/alpha''"
  by (simp add: package_name_def path_Clean_def Let_def h_new_fields)

lemma prepare_alpha_unresolved:
  "prepare (world inspect_unresolved 3) h_new ''net/alpha'' =
     Returns (Inl ErrImport, h_new, [MapLookup ''net/alpha'', CallFetch ''net/alpha''])"
proof -
  have "fetch (world inspect_unresolved 3) h_new ''net/alpha'' = Returns (Inl ErrImport)"
    by (simp add: fetch_def world_def inspect_unresolved_def)
  then show ?thesis by (simp add: prepare_def h_new_fields)
qed

lemma prepare_alpha_render_fails:
  "prepare (world inspect_ok 3) (Render (Some render_fails) h_new) ''net/alpha'' =
     Returns (Inl (ErrOther ''template: unexpected EOF''), Render (Some render_fails) h_new,
              [MapLookup ''net/alpha'', CallFetch ''net/alpha''])"
proof -
  have "fetch (world inspect_ok 3) (Render (Some render_fails) h_new) ''net/alpha'' =
          Returns (Inl (ErrOther ''template: unexpected EOF''))"
    by (simp add: fetch_def world_def inspect_ok_def Render_def render_fails_def)
  moreover have "packages (Render (Some render_fails) h_new) ''net/alpha'' = None"
    by (simp add: Render_def h_new_fields)
  ultimately show ?thesis by (simp add: prepare_def)
qed

theorem errorHandler_on_failure_witness:
  "ServeHTTP (world inspect_unresolved 3) h_new \<lparr>Method = ''GET'', Path = ''/alpha/'', RawQuery = []\<rparr> =
     Returns ([http_Error ''Not Found'' 404], h_new,
              [MapLookup ''net/alpha'', CallFetch ''net/alpha'', CallErrorHandler ErrImport]) \<and>
   ServeHTTP (world inspect_ok 3) (Render (Some render_fails) h_new)
       \<lparr>Method = ''GET'', Path = ''/alpha/'', RawQuery = []\<rparr> =
     Returns ([http_Error ''Internal Server Error'' 500], Render (Some render_fails) h_new,
              [MapLookup ''net/alpha'', CallFetch ''net/alpha'',
               CallErrorHandler (ErrOther ''template: unexpected EOF'')])"
proof -
  let ?req = "\<lparr>Method = ''GET'', Path = ''/alpha/'', RawQuery = []\<rparr>"
  have url: "request_url ?req = ''/alpha/''"
    by (simp add: request_url_def)
  have 1: "ServeHTTP (world inspect_unresolved 3) h_new ?req =
     Returns ([http_Error ''Not Found'' 404], h_new,
              [MapLookup ''net/alpha'', CallFetch ''net/alpha'', CallErrorHandler ErrImport])"
    using errorHandler_on_failure [where req = ?req and e = "world inspect_unresolved 3"
        and h = h_new and err = ErrImport and hp = h_new
        and fxp = "[MapLookup ''net/alpha'', CallFetch ''net/alpha'']"]
      prepare_alpha_unresolved package_name_h_new [of "render h_new"]
    by (simp add: url h_new_fields)
  have 2: "ServeHTTP (world inspect_ok 3) (Render (Some render_fails) h_new) ?req =
     Returns ([http_Error ''Internal Server Error'' 500], Render (Some render_fails) h_new,
              [MapLookup ''net/alpha'', CallFetch ''net/alpha'',
               CallErrorHandler (ErrOther ''template: unexpected EOF'')])"
    using errorHandler_on_failure [where req = ?req and e = "world inspect_ok 3"
        and h = "Render (Some render_fails) h_new" and err = "ErrOther ''template: unexpected EOF''"
        and hp = "Render (Some render_fails) h_new" and m = "''template: unexpected EOF''"
        and fxp = "[MapLookup ''net/alpha'', CallFetch ''net/alpha'']"]
      prepare_alpha_render_fails package_name_h_new [of "Some render_fails"]
    by (simp add: url Render_def h_new_fields)
  from 1 2 show ?thesis by simp
qed

subsection \<open>fetch\<close>

text \<open>
  C1 (amended). \<^verbatim>\<open>fetch\<close> fails with \<^verbatim>\<open>ErrImport\<close> whenever the inspected record has
  no name. When the record has a name, an error of the inspector is returned as it is;
  with no such error, an error of the renderer is returned as it is; with neither, the
  rendered bytes are returned with the time of the clock. Nothing is wrapped: the error
  is \<^verbatim>\<open>ErrImport\<close> exactly when the record has no name, provided neither the inspector
  nor the renderer returns \<^verbatim>\<open>ErrImport\<close> itself.
\<close>

theorem fetch_errors:
  "(Name (fst (pkgdoc_New e nm)) = [] \<longrightarrow> fetch e h nm = Returns (Inl ErrImport)) \<and>
   (Name (fst (pkgdoc_New e nm)) \<noteq> [] \<and> snd (pkgdoc_New e nm) = Some er \<longrightarrow>
      fetch e h nm = Returns (Inl er)) \<and>
   (Name (fst (pkgdoc_New e nm)) \<noteq> [] \<and> snd (pkgdoc_New e nm) = None \<and>
    render h = Some r \<and> r (fst (pkgdoc_New e nm)) = Inl er \<longrightarrow>
      fetch e h nm = Returns (Inl er)) \<and>
   (Name (fst (pkgdoc_New e nm)) \<noteq> [] \<and> snd (pkgdoc_New e nm) = None \<and>
    render h = Some r \<and> r (fst (pkgdoc_New e nm)) = Inr b \<longrightarrow>
      fetch e h nm = Returns (Inr \<lparr>buf = b, modTime = time_Now e\<rparr>)) \<and>
   (snd (pkgdoc_New e nm) \<noteq> Some ErrImport \<and>
    (\<forall>r. render h = Some r \<longrightarrow> r (fst (pkgdoc_New e nm)) \<noteq> Inl ErrImport) \<longrightarrow>
      (fetch e h nm = Returns (Inl ErrImport)) = (Name (fst (pkgdoc_New e nm)) = []))"
  by (cases "pkgdoc_New e nm")
     (auto simp: fetch_def Let_def split: option.splits sum.splits)

lemma h_new_renderer:
  "render h_new = Some (defaultRenderer (world inspect_ok 0) (h_new\<lparr>render := None\<rparr>))"
  by (simp add: h_new_def New_def Let_def)

theorem fetch_errors_witness:
  "fetch (world inspect_unresolved 3) h_new ''alpha'' = Returns (Inl ErrImport) \<and>
   fetch (world inspect_broken 3) h_new ''net'' = Returns (Inl (ErrOther ''syntax error'')) \<and>
   fetch (world inspect_ok 3) (Render (Some render_fails) h_new) ''net'' =
     Returns (Inl (ErrOther ''template: unexpected EOF'')) \<and>
   fetch (world inspect_ok 3) h_new ''net'' = Returns (Inr \<lparr>buf = ''net: first'', modTime = 3\<rparr>) \<and>
   (fetch (world inspect_broken 3) h_new ''net'' = Returns (Inl ErrImport)) =
     (Name (fst (pkgdoc_New (world inspect_broken 3) ''net'')) = [])"
proof -
  have 1: "fetch (world inspect_unresolved 3) h_new ''alpha'' = Returns (Inl ErrImport)"
    using fetch_errors [where e = "world inspect_unresolved 3" and nm = "''alpha''" and h = h_new]
    by (simp add: world_def inspect_unresolved_def)
  have 2: "fetch (world inspect_broken 3) h_new ''net'' = Returns (Inl (ErrOther ''syntax error''))"
    using fetch_errors [where e = "world inspect_broken 3" and nm = "''net''" and h = h_new
        and er = "ErrOther ''syntax error''"]
    by (simp add: world_def inspect_broken_def)
  have 3: "fetch (world inspect_ok 3) (Render (Some render_fails) h_new) ''net'' =
     Returns (Inl (ErrOther ''template: unexpected EOF''))"
    using fetch_errors [where e = "world inspect_ok 3" and nm = "''net''"
        and er = "ErrOther ''template: unexpected EOF''"
        and h = "Render (Some render_fails) h_new" and r = render_fails]
    by (simp add: world_def inspect_ok_def Render_def render_fails_def)
  have 4: "fetch (world inspect_ok 3) h_new ''net'' = Returns (Inr \<lparr>buf = ''net: first'', modTime = 3\<rparr>)"
    using fetch_errors [where e = "world inspect_ok 3" and nm = "''net''" and h = h_new
        and r = "defaultRenderer (world inspect_ok 0) (h_new\<lparr>render := None\<rparr>)"
        and b = "''net: first''"]
    by (simp add: h_new_renderer) (simp add: world_def inspect_ok_def defaultRenderer_def)
  have 5: "(fetch (world inspect_broken 3) h_new ''net'' = Returns (Inl ErrImport)) =
     (Name (fst (pkgdoc_New (world inspect_broken 3) ''net'')) = [])"
    using fetch_errors [where e = "world inspect_broken 3" and nm = "''net''" and h = h_new]
    by (simp add: h_new_renderer) (simp add: world_def inspect_broken_def defaultRenderer_def)
  from 1 2 3 4 5 show ?thesis by blast
qed

text \<open>
  The claim C1 as it was stated fails where the inspector returns a record with a name
  together with an error: \<^verbatim>\<open>fetch\<close> returns that error itself, which is not
  \<^verbatim>\<open>ErrImport\<close> and is not an error of the renderer (the renderer succeeds on the
  record).
\<close>

theorem fetch_unwrapped_counterexample:
  "fetch (world inspect_broken 3) h_new ''net'' = Returns (Inl (ErrOther ''syntax error'')) \<and>
   Name (fst (pkgdoc_New (world inspect_broken 3) ''net'')) = ''net'' \<and>
   render h_new = Some (defaultRenderer (world inspect_ok 0) (h_new\<lparr>render := None\<rparr>)) \<and>
   defaultRenderer (world inspect_ok 0) (h_new\<lparr>render := None\<rparr>)
     (fst (pkgdoc_New (world inspect_broken 3) ''net'')) = Inr ''net: ''"
  by (simp add: h_new_renderer)
     (simp add: fetch_def world_def inspect_broken_def defaultRenderer_def)

subsection \<open>The redirect of ServeHTTP\<close>

lemma request_url_slash: "HasPrefix_slash (request_url req)"
  by (cases "Path req") (simp_all add: request_url_def)


















text \<open>
  The last element is written into \<^verbatim>\<open>Location\<close> as it is, not escaped. Where it has
  a question mark (the request \<^verbatim>\<open>/a%3Fb?x=1\<close>, whose decoded path is \<^verbatim>\<open>/a?b\<close>), the
  reference that is written parses into another path and another query.
\<close>

lemma redirect_location_not_escaped:
  "redirect_location \<lparr>Method = ''GET'', Path = ''/a?b'', RawQuery = ''x=1''\<rparr> = ''a?b/?x=1'' \<and>
   parse_reference ''a?b/?x=1'' =
     \<lparr>scheme = None, authority = None, upath = ''a'', query = Some ''b/?x=1'', fragment = None\<rparr>"
  by code_simp

section \<open>The goroutines: what every reachable state satisfies\<close>

subsection \<open>Counting the elements of a list that satisfy a predicate\<close>

lemma count_where_Nil: "count_where P [] = 0"
  by (simp add: count_where_def)

lemma count_where_Cons: "count_where P (x # xs) = (if P x then 1 else 0) + count_where P xs"
  by (simp add: count_where_def)

lemma count_where_append: "count_where P (xs @ ys) = count_where P xs + count_where P ys"
  by (simp add: count_where_def)

lemma count_where_pos: "i < length xs \<Longrightarrow> P (xs ! i) \<Longrightarrow> 0 < count_where P xs"
  unfolding count_where_def
  by (metis filter_empty_conv length_greater_0_conv nth_mem)

lemma count_where_update:
  "i < length xs \<Longrightarrow>
   count_where P (xs[i := y]) =
     count_where P xs - (if P (xs ! i) then 1 else 0) + (if P y then 1 else 0)"
proof (induction xs arbitrary: i)
  case Nil
  then show ?case by simp
next
  case (Cons x xs)
  show ?case
  proof (cases i)
    case 0
    then show ?thesis by (simp add: count_where_Cons)
  next
    case (Suc k)
    with Cons.prems have k: "k < length xs" by simp
    from count_where_pos [OF k, of P] have "P (xs ! k) \<Longrightarrow> 0 < count_where P xs" .
    with Cons.IH [OF k] Suc show ?thesis by (auto simp: count_where_Cons)
  qed
qed

lemma count_where_le:
  assumes "\<And>x. P x \<Longrightarrow> Q x"
  shows "count_where P xs \<le> count_where Q xs"
  using assms by (induction xs) (auto simp: count_where_Nil count_where_Cons)

lemma count_where_less:
  assumes "i < length xs" and "Q (xs ! i)" and "\<not> P (xs ! i)" and "\<And>x. P x \<Longrightarrow> Q x"
  shows "count_where P xs < count_where Q xs"
  using assms(1-3)
proof (induction xs arbitrary: i)
  case Nil
  then show ?case by simp
next
  case (Cons x xs)
  have le: "count_where P xs \<le> count_where Q xs"
    using assms(4) by (rule count_where_le)
  show ?case
  proof (cases i)
    case 0
    with Cons.prems le show ?thesis by (simp add: count_where_Cons)
  next
    case (Suc k)
    with Cons.prems Cons.IH [of k] assms(4) [of x] show ?thesis
      by (auto simp: count_where_Cons)
  qed
qed

subsection \<open>The mutex\<close>

text \<open>The goroutine that holds the mutex is the only one at a statement under the mutex.\<close>

lemma holder_only:
  assumes "inv s" and "i < length (gs s)" and "holds_mu (gs s ! i)" and "\<And>g. P g \<Longrightarrow> holds_mu g"
  shows "count_where P (gs s) = (if P (gs s ! i) then 1 else 0)"
proof -
  from assms(1) have h: "count_where holds_mu (gs s) \<le> 1"
    by (simp add: inv_def split: if_splits)
  show ?thesis
  proof (cases "P (gs s ! i)")
    case True
    from count_where_pos [OF assms(2), of P] True have "0 < count_where P (gs s)" by simp
    moreover from count_where_le [of P holds_mu "gs s"] assms(4)
    have "count_where P (gs s) \<le> count_where holds_mu (gs s)" by blast
    ultimately have "count_where P (gs s) = 1" using h by linarith
    with True show ?thesis by simp
  next
    case False
    from count_where_less [of i "gs s" holds_mu P] assms(2,3,4) False
    have "count_where P (gs s) < count_where holds_mu (gs s)" by blast
    with h have "count_where P (gs s) = 0" by linarith
    with False show ?thesis by simp
  qed
qed

lemma holds_mu_locked:
  assumes "inv s" and "i < length (gs s)" and "holds_mu (gs s ! i)"
  shows "mu s" and "count_where holds_mu (gs s) = 1"
  using assms count_where_pos [of i "gs s" holds_mu]
  by (auto simp: inv_def split: if_splits)

lemma missed_holds: "missed n g \<Longrightarrow> holds_mu g"
  by (cases g) auto

lemma storing_holds: "storing n g \<Longrightarrow> holds_mu g"
  by (cases g) auto


lemma if_one_zero:
  "(0 < (if c then (1::nat) else 0)) = c"
  "((if c then (1::nat) else 0) = 1) = c"
  "((if c then (1::nat) else 0) = Suc 0) = c"
  "((if c then (1::nat) else 0) = 0) = (\<not> c)"
  "((if c then Suc 0 else 0) = 0) = (\<not> c)"
  "(0 < (if c then Suc 0 else 0)) = c"
  by simp_all

lemma refresher_counted:
  assumes "inv s" and "i < length (gs s)" and "refreshes n (gs s ! i)"
  shows "count_where (refreshes n) (gs s) = 1"
proof -
  from count_where_pos [OF assms(2), of "refreshes n"] assms(3)
  have "0 < count_where (refreshes n) (gs s)" by simp
  moreover from assms(1) have "count_where (refreshes n) (gs s) \<le> 1"
    by (simp add: inv_def refreshers_def)
  ultimately show ?thesis by linarith
qed

text \<open>Every step of every goroutine keeps what holds in every state.\<close>

lemma inv_step:
  assumes "inv s"
  shows "inv (step e i s)"
proof (cases "i < length (gs s)")
  case False
  with assms show ?thesis by (simp add: step_def)
next
  case i: True
  note upd = count_where_update [OF i]
  note cw = count_where_append count_where_Cons count_where_Nil
  have locked: "mu s" if "holds_mu (gs s ! i)"
    using holds_mu_locked(1) [OF assms i that] .
  have m: "count_where (missed n) (gs s) = (if missed n (gs s ! i) then 1 else 0)"
    if "holds_mu (gs s ! i)" for n
    using holder_only [OF assms i that missed_holds] .
  have st: "count_where (storing n) (gs s) = (if storing n (gs s ! i) then 1 else 0)"
    if "holds_mu (gs s ! i)" for n
    using holder_only [OF assms i that storing_holds] .
  have r1: "count_where (refreshes n) (gs s) = 1" if "refreshes n (gs s ! i)" for n
    using refresher_counted [OF assms i that] .
  have nopanic: "fetch e (hnd s) nm \<noteq> Panics" for nm
    using assms by (simp add: inv_def fetch_not_Panics)
  show ?thesis
  proof (cases "gs s ! i")
    case (Prepare_Lock nm)
    with assms i show ?thesis
      by (auto simp: step_def inv_def refreshers_def upd)
  next
    case (Prepare_Lookup nm)
    with assms i m locked show ?thesis
      by (auto simp: step_def inv_def refreshers_def upd split: option.splits)
  next
    case (Prepare_Fetch nm)
    with assms i m locked nopanic [of nm] show ?thesis
      by (auto simp: step_def inv_def refreshers_def upd split: exec.splits sum.splits)
  next
    case (Prepare_Go nm p)
    with assms i m st locked show ?thesis
      by (auto simp: step_def inv_def refreshers_def upd cw)
  next
    case (Prepare_Store nm p)
    with assms i m st locked show ?thesis
      by (auto simp: step_def inv_def refreshers_def upd)
  next
    case (Prepare_Return r)
    with assms i m locked show ?thesis
      by (auto simp: step_def inv_def refreshers_def upd)
  next
    case (Prepare_Done r)
    with assms i show ?thesis by (simp add: step_def)
  next
    case (Update_Sleep nm)
    with assms i r1 [of nm] show ?thesis
      by (auto simp: step_def inv_def refreshers_def upd if_one_zero)
  next
    case (Update_Fetch nm)
    with assms i r1 [of nm] nopanic [of nm] show ?thesis
      by (auto simp: step_def inv_def refreshers_def upd if_one_zero split: exec.splits sum.splits)
  next
    case (Update_Lock nm p)
    with assms i r1 [of nm] show ?thesis
      by (auto simp: step_def inv_def refreshers_def upd if_one_zero)
  next
    case (Update_Compare nm p)
    from Update_Compare st have st0: "count_where (storing n) (gs s) = 0" for n by simp
    from Update_Compare r1 [of nm] have "refreshers s nm = 1" by (simp add: refreshers_def)
    with assms st0 obtain cur where cur: "packages (hnd s) nm = Some cur"
      by (auto simp: inv_def if_one_zero)
    show ?thesis
    proof (cases "buf cur = buf p")
      case True
      with cur Update_Compare assms i m st0 locked r1 [of nm] show ?thesis
        by (auto simp: step_def inv_def refreshers_def upd compare_and_replace_def if_one_zero)
    next
      case False
      with cur Update_Compare assms i m st0 locked r1 [of nm] show ?thesis
        by (auto simp: step_def inv_def refreshers_def upd compare_and_replace_def if_one_zero)
    qed
  next
    case (Update_Unlock nm)
    with assms i locked r1 [of nm] show ?thesis
      by (auto simp: step_def inv_def refreshers_def upd if_one_zero)
  next
    case Panicked
    with assms i show ?thesis by (simp add: step_def)
  qed
qed

subsection \<open>Reachable states\<close>

lemma inv_start:
  assumes "render h \<noteq> None" and "packages h = Map.empty"
  shows "inv (start h)"
  using assms by (simp add: inv_def start_def refreshers_def count_where_Nil)

lemma inv_exec_event:
  assumes "inv s"
  shows "inv (exec_event s ev)"
proof (cases ev)
  case (Request nm)
  with assms show ?thesis
    by (simp add: inv_def refreshers_def count_where_append count_where_Cons count_where_Nil)
next
  case (Run i e)
  with inv_step [OF assms] show ?thesis by simp
qed

lemma inv_run:
  "inv s \<Longrightarrow> inv (run s evs)"
  unfolding run_def
  by (induction evs arbitrary: s) (simp_all add: inv_exec_event)

text \<open>
  C9. In every state the process reaches from a new handler, a goroutine of
  \<^verbatim>\<open>update\<close> that is at its compare-and-replace (it holds the mutex) finds the name in
  the map: the critical section does not panic, and its step ends at the
  \<^verbatim>\<open>Unlock\<close>. No goroutine has panicked in any such state.
\<close>

theorem compare_finds_entry:
  assumes "render h \<noteq> None" and "packages h = Map.empty"
    and "i < length (gs (run (start h) evs))"
    and "gs (run (start h) evs) ! i = Update_Compare nm p"
  shows "packages (hnd (run (start h) evs)) nm \<noteq> None \<and>
         compare_and_replace (hnd (run (start h) evs)) nm p \<noteq> Panics \<and>
         gs (step e i (run (start h) evs)) ! i = Update_Unlock nm \<and>
         count_where is_panicked (gs (run (start h) evs)) = 0"
proof -
  let ?s = "run (start h) evs"
  have inv: "inv ?s"
    using inv_run [OF inv_start [OF assms(1,2)]] .
  from assms(4) have hm: "holds_mu (gs ?s ! i)" and rf: "refreshes nm (gs ?s ! i)"
    and ns: "\<not> storing nm (gs ?s ! i)"
    by simp_all
  have "count_where (storing nm) (gs ?s) = (if storing nm (gs ?s ! i) then 1 else 0)"
    using holder_only [OF inv assms(3) hm storing_holds] .
  with ns have st: "count_where (storing nm) (gs ?s) = 0" by simp
  from refresher_counted [OF inv assms(3) rf]
  have "refreshers ?s nm = 1" by (simp add: refreshers_def)
  with inv st have present: "packages (hnd ?s) nm \<noteq> None"
    by (auto simp: inv_def if_one_zero)
  then have c: "compare_and_replace (hnd ?s) nm p \<noteq> Panics"
    by (auto simp: compare_and_replace_def)
  with assms(3,4) have u: "gs (step e i ?s) ! i = Update_Unlock nm"
    by (auto simp: step_def split: exec.splits)
  from inv have "count_where is_panicked (gs ?s) = 0"
    by (simp add: inv_def)
  with present c u show ?thesis by simp
qed

lemma fetch_packages: "fetch e (h\<lparr>packages := m\<rparr>) nm = fetch e h nm"
  by (auto simp: fetch_def Let_def split: prod.splits option.splits)

lemma fetch_h_new_changed:
  "fetch (world inspect_changed t) h_new nm =
     (if nm = [] then Returns (Inl ErrImport)
      else Returns (Inr \<lparr>buf = nm @ '': second'', modTime = t\<rparr>))"
  by (simp add: fetch_def world_def inspect_changed_def h_new_def New_def Let_def
      defaultRenderer_def defaultStylesheet_def)

lemma run_evs_net:
  "run (start h_new) evs_net =
     \<lparr>hnd = h_new\<lparr>packages := [''net'' \<mapsto> \<lparr>buf = ''net: first'', modTime = 1\<rparr>]\<rparr>,
      mu = True,
      gs = [Prepare_Done (Inr (''net: first'', 1)),
            Update_Compare ''net'' \<lparr>buf = ''net: second'', modTime = 2\<rparr>],
      miss_fetches = [(0, ''net'', True)]\<rparr>"
  by (simp add: run_def evs_net_def start_def step_def fetch_packages fetch_h_new_ok
      fetch_h_new_changed h_new_fields getReadSeeker_def)

theorem compare_finds_entry_witness:
  "packages (hnd (run (start h_new) evs_net)) ''net'' \<noteq> None \<and>
   gs (step (world inspect_changed 5) 1 (run (start h_new) evs_net)) ! 1 = Update_Unlock ''net'' \<and>
   gs (run (start h_new) evs_net) ! 1 = Update_Compare ''net'' \<lparr>buf = ''net: second'', modTime = 2\<rparr>"
  using compare_finds_entry [of h_new 1 evs_net "''net''" "\<lparr>buf = ''net: second'', modTime = 2\<rparr>"
      "world inspect_changed 5"]
  by (simp add: h_new_fields run_evs_net)

subsection \<open>The log of the calls of fetch\<close>
















subsection \<open>New handlers, and prepare as a goroutine\<close>

text \<open>
  The handlers that \<^verbatim>\<open>New\<close> builds: they have a renderer, and no package when the
  options are made by the five option functions, none of which touches the map.
\<close>

lemma New_render: "render (New e nm opts) \<noteq> None"
  by (simp add: New_def Let_def)

lemma foldl_options_packages:
  assumes "\<And>opt h. opt \<in> set opts \<Longrightarrow> packages (opt h) = packages h"
  shows "packages (foldl (\<lambda>h option. option h) h0 opts) = packages h0"
  using assms by (induction opts arbitrary: h0) simp_all

lemma New_packages:
  assumes "\<And>opt h. opt \<in> set opts \<Longrightarrow> packages (opt h) = packages h"
  shows "packages (New e nm opts) = Map.empty"
proof -
  have "packages (foldl (\<lambda>h option. option h) h0 opts) = packages h0" for h0
    using assms by (rule foldl_options_packages)
  then show ?thesis by (simp add: New_def Let_def)
qed

lemma options_keep_packages:
  "packages (Render fn h) = packages h"
  "packages (Template e filename h) = packages h"
  "packages (StylesheetURL href h) = packages h"
  "packages (ErrorHandler eh h) = packages h"
  "packages (UpdateDuration d h) = packages h"
  by (simp_all add: Render_def Template_def StylesheetURL_def ErrorHandler_def
      UpdateDuration_def split: sum.splits)

text \<open>
  The goroutine of a request, run from \<^verbatim>\<open>Lock\<close> to \<^verbatim>\<open>Unlock\<close> with no other goroutine
  in between, does what \<open>prepare\<close> says: the same result, the same handler, an
  \<^verbatim>\<open>update\<close> goroutine exactly when \<open>prepare\<close> has a \<^verbatim>\<open>go\<close> statement.
\<close>

lemma prepare_uninterrupted:
  assumes "i < length (gs s)" and "gs s ! i = Prepare_Lock nm" and "\<not> mu s"
    and "prepare e (hnd s) nm = Returns (r, h', fx)"
  shows "hnd (run s [Run i e, Run i e, Run i e, Run i e, Run i e, Run i e]) = h' \<and>
         \<not> mu (run s [Run i e, Run i e, Run i e, Run i e, Run i e, Run i e]) \<and>
         gs (run s [Run i e, Run i e, Run i e, Run i e, Run i e, Run i e]) =
           (gs s)[i := Prepare_Done r] @ (if GoUpdate nm \<in> set fx then [Update_Sleep nm] else [])"
proof (cases "packages (hnd s) nm")
  case (Some p)
  with assms show ?thesis
    by (auto simp: prepare_def run_def step_def)
next
  case None
  show ?thesis
  proof (cases "fetch e (hnd s) nm")
    case Panics
    with None assms show ?thesis by (simp add: prepare_def)
  next
    case (Returns res)
    show ?thesis
    proof (cases res)
      case (Inl er)
      with None Returns assms show ?thesis
        by (auto simp: prepare_def run_def step_def)
    next
      case (Inr p)
      with None Returns assms show ?thesis
        by (auto simp: prepare_def run_def step_def nth_append fetch_packages list_update_append)
    qed
  qed
qed

text \<open>
  The goroutine of \<^verbatim>\<open>update\<close>, run for one turn of its loop with no other goroutine in
  between (two steps when the fetch fails, five when it succeeds), changes the handler
  as \<open>update_cycle\<close> says and nothing else.
\<close>

lemma update_uninterrupted:
  assumes "i < length (gs s)" and "gs s ! i = Update_Sleep nm" and "\<not> mu s"
    and "update_cycle e (hnd s) nm = Returns h'"
  shows "run s (case fetch e (hnd s) nm of
                  Returns (Inr p) \<Rightarrow> [Run i e, Run i e, Run i e, Run i e, Run i e]
                | other \<Rightarrow> [Run i e, Run i e]) = s\<lparr>hnd := h'\<rparr>"
proof (cases "fetch e (hnd s) nm")
  case Panics
  with assms show ?thesis by (simp add: update_cycle_def)
next
  case (Returns res)
  show ?thesis
  proof (cases res)
    case (Inl er)
    with Returns assms have "h' = hnd s" by (simp add: update_cycle_def)
    with Inl Returns assms show ?thesis
      by (simp add: run_def step_def list_update_same_conv)
  next
    case (Inr p)
    with Returns assms have c: "compare_and_replace (hnd s) nm p = Returns h'"
      by (simp add: update_cycle_def)
    with Inr Returns assms show ?thesis
      by (simp add: run_def step_def list_update_same_conv)
  qed
qed

end
